theory Spec2Isabelle
  imports Main
begin

section \<open>The element tree\<close>

text \<open>
  The parser of \<^verbatim>\<open>html.go\<close> works on \<^verbatim>\<open>[]rune\<close>. A rune is modelled as a
  \<^typ>\<open>char\<close>, read as the code point of the same number, so the texts of this
  theory are the inputs whose code points lie below U+0100. A Go \<^verbatim>\<open>string\<close> built
  from runes is their UTF-8 encoding; the only place of the parser that looks at the bytes
  of a string is \<^verbatim>\<open>countNewlinesBefore\<close>, which gets the encoding written out.

  \<^verbatim>\<open>Element\<close> is the struct of the source without its \<^verbatim>\<open>Parent\<close> field: that
  field is a pointer written by \<^verbatim>\<open>AddChild\<close> and read by neither the tokenizer nor
  the tree builder. \<^verbatim>\<open>Attributes\<close> is a map; the nil map and the empty map of Go are
  both the empty map here (the parser only reads a map that may be nil).
\<close>

datatype Element = Element
  (ElementName: string)
  (InnerHTML: string)
  (Attributes: "string \<rightharpoonup> string")
  (Children: "Element list")
  (IsText: bool)
  (IsVoid: bool)
  (IsComment: bool)
  (IsRoot: bool)
  (IsClose: bool)
  (IsData: bool)

text \<open>The zero value \<^verbatim>\<open>Element{}\<close>.\<close>

definition Element_zero :: Element where
  "Element_zero = Element [] [] Map.empty [] False False False False False False"

text \<open>Assignments to one field of an element.\<close>

fun set_ElementName :: "string \<Rightarrow> Element \<Rightarrow> Element" where
  "set_ElementName x (Element n h a ch t v c r cl d) = Element x h a ch t v c r cl d"

fun set_InnerHTML :: "string \<Rightarrow> Element \<Rightarrow> Element" where
  "set_InnerHTML x (Element n h a ch t v c r cl d) = Element n x a ch t v c r cl d"

fun set_Attributes :: "(string \<rightharpoonup> string) \<Rightarrow> Element \<Rightarrow> Element" where
  "set_Attributes x (Element n h a ch t v c r cl d) = Element n h x ch t v c r cl d"

fun set_Children :: "Element list \<Rightarrow> Element \<Rightarrow> Element" where
  "set_Children x (Element n h a ch t v c r cl d) = Element n h a x t v c r cl d"

fun set_IsVoid :: "bool \<Rightarrow> Element \<Rightarrow> Element" where
  "set_IsVoid x (Element n h a ch t v c r cl d) = Element n h a ch t x c r cl d"

fun set_IsComment :: "bool \<Rightarrow> Element \<Rightarrow> Element" where
  "set_IsComment x (Element n h a ch t v c r cl d) = Element n h a ch t v x r cl d"

fun set_IsClose :: "bool \<Rightarrow> Element \<Rightarrow> Element" where
  "set_IsClose x (Element n h a ch t v c r cl d) = Element n h a ch t v c r x d"

text \<open>\<^verbatim>\<open>e.Children = append(e.Children, *newChild)\<close>: the child is copied in.\<close>

definition AddChild :: "Element \<Rightarrow> Element \<Rightarrow> Element" where
  "AddChild e newChild = set_Children (Children e @ [newChild]) e"

definition ELEMENT_INTERNAL_XML_COMMENT :: string where
  "ELEMENT_INTERNAL_XML_COMMENT = ''xmlcomment''"

definition ELEMENT_INTERNAL_TEXT :: string where
  "ELEMENT_INTERNAL_TEXT = ''text''"

definition newTextNode :: "string \<Rightarrow> Element" where
  "newTextNode text =
     Element ELEMENT_INTERNAL_TEXT text Map.empty [] True True False False False False"

section \<open>Utilities\<close>

definition isWhitespace :: "char \<Rightarrow> bool" where
  "isWhitespace c \<longleftrightarrow> c = CHR '' '' \<or> c = CHR 0x09 \<or> c = CHR 0x0D \<or> c = CHR 0x0A"

fun isContinuousWhitespace :: "string \<Rightarrow> bool" where
  "isContinuousWhitespace [] = True"
| "isContinuousWhitespace (c # corpus) =
     (if \<not> isWhitespace c then False else isContinuousWhitespace corpus)"

text \<open>
  \<^verbatim>\<open>strings.ToLower\<close> maps \<^verbatim>\<open>unicode.ToLower\<close> over the runes. Below U+0100 the
  upper-case letters are A to Z and U+00C0 to U+00DE without the multiplication sign
  U+00D7, each 32 below its lower-case letter.
\<close>

definition toLower_rune :: "char \<Rightarrow> char" where
  "toLower_rune c =
     (let n = (of_char c :: nat)
      in if (65 \<le> n \<and> n \<le> 90) \<or> (192 \<le> n \<and> n \<le> 222 \<and> n \<noteq> 215)
         then char_of (n + 32) else c)"

definition ToLower :: "string \<Rightarrow> string" where
  "ToLower s = map toLower_rune s"

definition KNOWN_VOID_ELEMENTS :: "string list" where
  "KNOWN_VOID_ELEMENTS =
     [''area'', ''base'', ''br'', ''col'', ''embed'', ''hr'', ''img'', ''input'',
      ''keygen'', ''link'', ''menuitem'', ''meta'', ''param'', ''source'', ''track'',
      ''wbr'']"

definition isKnownVoidElement :: "string \<Rightarrow> bool" where
  "isKnownVoidElement elementName \<longleftrightarrow> ToLower elementName \<in> set KNOWN_VOID_ELEMENTS"

text \<open>
  A slice expression \<^verbatim>\<open>text[low:high]\<close>. Go panics unless
  \<open>low \<le> high \<le> cap\<close>; the scanners below take their slices between the cursor they
  were given and the cursor they return, and the tree builder checks the bounds.
\<close>

definition slice :: "'a list \<Rightarrow> nat \<Rightarrow> nat \<Rightarrow> 'a list" where
  "slice text low high = take (high - low) (drop low text)"

text \<open>\<^verbatim>\<open>strings.Join\<close>.\<close>

fun Join :: "string list \<Rightarrow> string \<Rightarrow> string" where
  "Join [] sep = []"
| "Join [x] sep = x"
| "Join (x # y # xs) sep = x @ sep @ Join (y # xs) sep"

text \<open>The verb \<^verbatim>\<open>%d\<close> of \<^verbatim>\<open>fmt.Sprintf\<close> on a number that is not negative.\<close>

fun Sprintf_d :: "nat \<Rightarrow> string" where
  "Sprintf_d n =
     (if n < 10 then [char_of (48 + n)]
      else Sprintf_d (n div 10) @ [char_of (48 + n mod 10)])"

text \<open>
  A call either returns or panics (a nil pointer dereference, an index out of range).
\<close>

datatype 'a go = Panics | Returns 'a

section \<open>The tag-context stack\<close>

text \<open>
  A node is never written after \<^verbatim>\<open>Push\<close> has allocated it, so a pointer to a node
  is the chain of nodes it leads to, and nil is \<^term>\<open>None\<close>.
\<close>

datatype elementStackNode = elementStackNode
  (Next: "elementStackNode option")
  (Value: Element)

record elementStack =
  Top :: "elementStackNode option"
  Count :: int

definition elementStack_zero :: elementStack where
  "elementStack_zero = \<lparr>Top = None, Count = 0\<rparr>"

definition Push :: "elementStack \<Rightarrow> Element \<Rightarrow> elementStack" where
  "Push es e =
     (let es1 = es\<lparr>Count := Count es + 1\<rparr>
      in case Top es1 of
           None \<Rightarrow> es1\<lparr>Top := Some (elementStackNode None e)\<rparr>
         | Some oldTop \<Rightarrow> es1\<lparr>Top := Some (elementStackNode (Some oldTop) e)\<rparr>)"

definition Pop :: "elementStack \<Rightarrow> elementStack \<times> Element option" where
  "Pop es =
     (case Top es of
        None \<Rightarrow> (es, None)
      | Some node \<Rightarrow> (es\<lparr>Count := Count es - 1, Top := Next node\<rparr>, Some (Value node)))"

definition Peek :: "elementStack \<Rightarrow> Element option" where
  "Peek es = (case Top es of None \<Rightarrow> None | Some node \<Rightarrow> Some (Value node))"

text \<open>
  The loop of \<^verbatim>\<open>ToString\<close>: every node's name is put in front of the names
  collected so far.
\<close>

fun ToString_names :: "elementStackNode option \<Rightarrow> string list \<Rightarrow> string list" where
  "ToString_names None names = names"
| "ToString_names (Some (elementStackNode nxt v)) names =
     ToString_names nxt (ElementName v # names)"

definition ToString :: "elementStack \<Rightarrow> string" where
  "ToString es =
     (case Top es of
        None \<Rightarrow> ''*''
      | Some node \<Rightarrow> Join (ToString_names (Some node) []) '' > '')"

text \<open>The two loops of \<^verbatim>\<open>Duplicate\<close>: collect the values, bottom first, then push them.\<close>

fun Duplicate_nodes :: "elementStackNode option \<Rightarrow> Element list \<Rightarrow> Element list" where
  "Duplicate_nodes None nodes = nodes"
| "Duplicate_nodes (Some (elementStackNode nxt v)) nodes = Duplicate_nodes nxt (v # nodes)"

fun Duplicate_push :: "elementStack \<Rightarrow> Element list \<Rightarrow> elementStack" where
  "Duplicate_push new_es [] = new_es"
| "Duplicate_push new_es (node # nodes) = Duplicate_push (Push new_es node) nodes"

definition Duplicate :: "elementStack \<Rightarrow> elementStack" where
  "Duplicate es =
     (case Top es of
        None \<Rightarrow> elementStack_zero
      | Some node \<Rightarrow> Duplicate_push elementStack_zero (Duplicate_nodes (Some node) []))"

text \<open>
  The stacks themselves are structs reached through pointers (\<^verbatim>\<open>*elementStack\<close>) and
  written in place by \<^verbatim>\<open>Push\<close> and \<^verbatim>\<open>Pop\<close>. A heap is the list of the structs
  allocated so far and a pointer is an index into it; \<^verbatim>\<open>&elementStack{}\<close> allocates the
  next index.
\<close>

type_synonym heap = "elementStack list"

definition Push_at :: "heap \<Rightarrow> nat \<Rightarrow> Element \<Rightarrow> heap" where
  "Push_at h es e = h[es := Push (h ! es) e]"

definition Pop_at :: "heap \<Rightarrow> nat \<Rightarrow> heap \<times> Element option" where
  "Pop_at h es = (h[es := fst (Pop (h ! es))], snd (Pop (h ! es)))"

definition ToString_at :: "heap \<Rightarrow> nat \<Rightarrow> string" where
  "ToString_at h es = ToString (h ! es)"

definition Duplicate_at :: "heap \<Rightarrow> nat \<Rightarrow> heap \<times> nat" where
  "Duplicate_at h es = (h @ [Duplicate (h ! es)], length h)"

section \<open>Cursor and scan primitives\<close>

text \<open>
  Every scanner gets the text and the cursor and returns what it read with the cursor
  where it left it. A loop \<^verbatim>\<open>for ; *cursor < len(text); *cursor++\<close> is a function of
  the cursor.
\<close>

function readWhitespace_loop :: "string \<Rightarrow> nat \<Rightarrow> nat" where
  "readWhitespace_loop text cursor =
     (if cursor < length text then
        (if \<not> isWhitespace (text ! cursor) then cursor
         else readWhitespace_loop text (cursor + 1))
      else cursor)"
  by pat_completeness auto
termination
  by (relation "measure (\<lambda>(text, cursor). length text - cursor)") auto

definition readWhitespace :: "string \<Rightarrow> nat \<Rightarrow> string \<times> nat" where
  "readWhitespace text cursor =
     (let startingPosition = cursor; cursor = readWhitespace_loop text cursor
      in (slice text startingPosition cursor, cursor))"

function readUntilTag_loop :: "string \<Rightarrow> nat \<Rightarrow> nat" where
  "readUntilTag_loop text cursor =
     (if cursor < length text then
        (if \<not> isWhitespace (text ! cursor) \<and> text ! cursor = CHR ''<'' then cursor
         else readUntilTag_loop text (cursor + 1))
      else cursor)"
  by pat_completeness auto
termination
  by (relation "measure (\<lambda>(text, cursor). length text - cursor)") auto

definition readUntilTag :: "string \<Rightarrow> nat \<Rightarrow> string \<times> nat" where
  "readUntilTag text cursor =
     (let startingPosition = cursor; cursor = readUntilTag_loop text cursor
      in (slice text startingPosition cursor, cursor))"

section \<open>The script-body scanner\<close>

text \<open>
  The states are the numbers of the source. A Go \<^verbatim>\<open>switch\<close> does not fall through,
  so the cases 25, 26 and 30, which have no \<^verbatim>\<open>break\<close>, end like the others.
\<close>

datatype script_flow =
  Script_Return
| Script_Loop nat string char nat

text \<open>
  The body of the loop on the character \<open>c\<close> at the cursor: either the
  \<^verbatim>\<open>return\<close> of state 12, or the next \<^verbatim>\<open>tag_start\<close>,
  \<^verbatim>\<open>working_tag\<close>, \<^verbatim>\<open>quote_character\<close> and \<^verbatim>\<open>state\<close>.
\<close>

definition readUntilScriptTagClose_step ::
  "char \<Rightarrow> string \<Rightarrow> nat \<Rightarrow> nat \<Rightarrow> string \<Rightarrow> char \<Rightarrow> nat \<Rightarrow> script_flow"
where
  "readUntilScriptTagClose_step c scriptType cursor tag_start working_tag quote_character
       state =
     (if state = 0 then
        (if c = CHR ''/'' \<and> scriptType = ''text/javascript'' then
           Script_Loop tag_start working_tag quote_character 21
         else if c = CHR ''<'' then Script_Loop cursor working_tag quote_character 11
         else if c = CHR 0x22 \<or> c = CHR 0x27 then Script_Loop tag_start working_tag c 30
         else Script_Loop tag_start working_tag quote_character state)
      else if state = 11 then
        (if c = CHR ''/'' then Script_Loop tag_start working_tag quote_character 12
         else Script_Loop tag_start working_tag quote_character state)
      else if state = 12 then
        (if c = CHR ''>'' then
           (if ToLower working_tag = ''script'' then Script_Return
            else Script_Loop tag_start working_tag quote_character state)
         else if \<not> isWhitespace c then
           Script_Loop tag_start (working_tag @ [c]) quote_character state
         else Script_Loop tag_start working_tag quote_character state)
      else if state = 21 then
        (if c = CHR ''*'' then Script_Loop tag_start working_tag quote_character 25
         else if c = CHR ''/'' then Script_Loop tag_start working_tag quote_character 22
         else Script_Loop tag_start working_tag quote_character 0)
      else if state = 22 then
        (if c = CHR 0x0A then Script_Loop tag_start working_tag quote_character 0
         else Script_Loop tag_start working_tag quote_character state)
      else if state = 25 then
        (if c = CHR ''*'' then Script_Loop tag_start working_tag quote_character 26
         else Script_Loop tag_start working_tag quote_character state)
      else if state = 26 then
        (if c = CHR ''/'' then Script_Loop tag_start working_tag quote_character 0
         else Script_Loop tag_start working_tag quote_character state)
      else if state = 30 then
        (if c = quote_character then Script_Loop tag_start working_tag quote_character 0
         else Script_Loop tag_start working_tag quote_character state)
      else Script_Loop tag_start working_tag quote_character state)"

function readUntilScriptTagClose_loop ::
  "string \<Rightarrow> string \<Rightarrow> nat \<Rightarrow> nat \<Rightarrow> string \<Rightarrow> char \<Rightarrow> nat \<Rightarrow> nat \<Rightarrow> string \<times> nat"
where
  "readUntilScriptTagClose_loop text scriptType starting_position tag_start working_tag
       quote_character state cursor =
     (if cursor < length text then
        (case readUntilScriptTagClose_step (text ! cursor) scriptType cursor tag_start
                working_tag quote_character state of
           Script_Return \<Rightarrow> (slice text starting_position tag_start, cursor + 1)
         | Script_Loop tag_start' working_tag' quote_character' state' \<Rightarrow>
             readUntilScriptTagClose_loop text scriptType starting_position tag_start'
               working_tag' quote_character' state' (cursor + 1))
      else (slice text starting_position cursor, cursor))"
  by pat_completeness auto
termination
  by (relation "measure (\<lambda>(text, scriptType, starting_position, tag_start, working_tag,
        quote_character, state, cursor). length text - cursor)") auto

definition readUntilScriptTagClose :: "string \<Rightarrow> nat \<Rightarrow> string \<Rightarrow> string \<times> nat" where
  "readUntilScriptTagClose text cursor scriptType =
     readUntilScriptTagClose_loop text scriptType cursor 0 [] (CHR 0x00) 0 cursor"

section \<open>The tag tokenizer\<close>

text \<open>The local variables of \<^verbatim>\<open>readTag\<close>.\<close>

record readTag_vars =
  elem :: Element
  state :: nat
  attr_name :: string
  attr_value :: string
  element_name :: string
  quote_character :: char

text \<open>
  One turn of the loop either leaves \<^verbatim>\<open>readTag\<close> with an element, an error (or nil)
  and the cursor, or goes round again.
\<close>

datatype readTag_flow =
  Return Element "string option" nat
| Loop readTag_vars nat

text \<open>
  \<^verbatim>\<open>elem.ElementName = strings.ToLower(element_name)\<close> and
  \<^verbatim>\<open>elem.IsVoid = elem.IsVoid || isKnownVoidElement(elem.ElementName)\<close>.
\<close>

definition name_elem :: "readTag_vars \<Rightarrow> Element" where
  "name_elem v = set_ElementName (ToLower (element_name v)) (elem v)"

definition name_void_elem :: "readTag_vars \<Rightarrow> Element" where
  "name_void_elem v =
     (let e = name_elem v in set_IsVoid (IsVoid e \<or> isKnownVoidElement (ElementName e)) e)"

text \<open>\<^verbatim>\<open>elem.Attributes[strings.ToLower(attr_name)] = value\<close>.\<close>

definition set_attr :: "string \<Rightarrow> readTag_vars \<Rightarrow> Element" where
  "set_attr val v =
     set_Attributes ((Attributes (elem v))(ToLower (attr_name v) \<mapsto> val)) (elem v)"

text \<open>
  The body of the loop on the character \<open>c\<close> at the cursor. The cursor of a
  \<^const>\<open>Loop\<close> is the one the next turn starts at, after the \<^verbatim>\<open>*cursor++\<close> of
  the loop: where the source steps back with \<^verbatim>\<open>*cursor = *cursor - 1\<close>, the two
  cancel and the next turn reads the same character again. A state with no case in the
  \<^verbatim>\<open>switch\<close> (state 11, entered from state 10 on a hyphen) does nothing.
\<close>

definition readTag_step :: "char \<Rightarrow> readTag_vars \<Rightarrow> nat \<Rightarrow> readTag_flow" where
  "readTag_step c v cursor =
     (if state v = 0 then
        (if c = CHR ''<'' then Loop (v\<lparr>state := 1\<rparr>) (cursor + 1)
         else Loop v (cursor + 1))
      else if state v = 1 then
        (if c = CHR ''!'' then
           Loop (v\<lparr>elem := set_IsVoid True (elem v), state := 3\<rparr>) (cursor + 1)
         else if c = CHR ''/'' then
           Loop (v\<lparr>elem := set_IsClose True (elem v)\<rparr>) (cursor + 1)
         else if c = CHR ''>'' then
           Return (name_void_elem v)
             (Some ''Empty tag similar to `<>` or `< >` or `</>`'') (cursor + 1)
         else if \<not> isWhitespace c then
           Loop (v\<lparr>state := 10, element_name := element_name v @ [c]\<rparr>) (cursor + 1)
         else Loop v (cursor + 1))
      else if state v = 2 then
        (if c = CHR ''/'' then Loop (v\<lparr>elem := set_IsVoid True (elem v)\<rparr>) (cursor + 1)
         else if c = CHR ''>'' then Return (name_void_elem v) None (cursor + 1)
         else if \<not> isWhitespace c then
           Loop (v\<lparr>state := 100, element_name := element_name v @ [c]\<rparr>) (cursor + 1)
         else Loop v (cursor + 1))
      else if state v = 3 then
        (if c = CHR ''-'' then Loop (v\<lparr>state := 4\<rparr>) (cursor + 1)
         else Loop (v\<lparr>state := 1\<rparr>) cursor)
      else if state v = 4 then
        (if c = CHR ''-'' then
           Loop (v\<lparr>element_name := ELEMENT_INTERNAL_XML_COMMENT,
                   elem := set_IsComment True (elem v), state := 200\<rparr>) (cursor + 1)
         else
           Return (name_elem v) (Some ''Almost an XML comment but not quite.'') (cursor + 1))
      else if state v = 10 then
        (if isWhitespace c then Loop (v\<lparr>state := 20\<rparr>) (cursor + 1)
         else if c = CHR ''-'' then Loop (v\<lparr>state := 11\<rparr>) (cursor + 1)
         else if c = CHR ''>'' then Return (name_void_elem v) None (cursor + 1)
         else if c = CHR ''/'' then
           Return (name_elem (v\<lparr>elem := set_IsVoid True (elem v)\<rparr>)) None (cursor + 1)
         else Loop (v\<lparr>element_name := element_name v @ [c]\<rparr>) (cursor + 1))
      else if state v = 20 then
        (if c = CHR ''/'' then
           Return (name_elem (v\<lparr>elem := set_IsVoid True (elem v)\<rparr>)) None (cursor + 1)
         else if c = CHR ''>'' then Return (name_void_elem v) None (cursor + 1)
         else if \<not> isWhitespace c then Loop (v\<lparr>state := 100\<rparr>) cursor
         else Loop v (cursor + 1))
      else if state v = 100 then
        (if c = CHR ''='' then Loop (v\<lparr>state := 101\<rparr>) (cursor + 1)
         else if c = CHR ''>'' \<or> c = CHR ''/'' then
           Loop (v\<lparr>elem := set_attr [] v, state := 20\<rparr>) cursor
         else if isWhitespace c then
           Loop (v\<lparr>elem := set_attr [] v, attr_name := [], attr_value := [], state := 20\<rparr>)
             (cursor + 1)
         else Loop (v\<lparr>attr_name := attr_name v @ [c]\<rparr>) (cursor + 1))
      else if state v = 101 then
        (if c = CHR 0x27 \<or> c = CHR 0x22 then
           Loop (v\<lparr>quote_character := c, state := 102\<rparr>) (cursor + 1)
         else if \<not> isWhitespace c then
           Loop (v\<lparr>attr_value := attr_value v @ [c], state := 103\<rparr>) (cursor + 1)
         else Loop v (cursor + 1))
      else if state v = 102 then
        (if c = quote_character v then
           Loop (v\<lparr>elem := set_attr (attr_value v) v, attr_name := [], attr_value := [],
                   state := 20\<rparr>) (cursor + 1)
         else Loop (v\<lparr>attr_value := attr_value v @ [c]\<rparr>) (cursor + 1))
      else if state v = 103 then
        (if isWhitespace c then
           Loop (v\<lparr>elem := set_attr (attr_value v) v, attr_name := [], attr_value := [],
                   state := 20\<rparr>) (cursor + 1)
         else Loop (v\<lparr>attr_value := attr_value v @ [c]\<rparr>) (cursor + 1))
      else if state v = 200 then
        (let e = set_IsComment True (set_ElementName ELEMENT_INTERNAL_XML_COMMENT (elem v)) in
         if c = CHR ''-'' then Loop (v\<lparr>elem := e, state := 201\<rparr>) (cursor + 1)
         else Loop (v\<lparr>elem := set_InnerHTML (InnerHTML e @ [c]) e\<rparr>) (cursor + 1))
      else if state v = 201 then
        (if c = CHR ''-'' then Loop (v\<lparr>state := 202\<rparr>) (cursor + 1)
         else
           Loop (v\<lparr>state := 200, elem := set_InnerHTML (InnerHTML (elem v) @ [c]) (elem v)\<rparr>)
             (cursor + 1))
      else if state v = 202 then
        (if c = CHR ''>'' then Return (name_elem v) None (cursor + 1)
         else Loop v (cursor + 1))
      else Loop v (cursor + 1))"

text \<open>
  What is left of the turn that starts in state \<open>s\<close> on the character \<open>c\<close>: one for
  the turns that step back, whose next turn on the same character then moves on.
\<close>

definition readTag_rank :: "nat \<Rightarrow> char \<Rightarrow> nat" where
  "readTag_rank s c =
     (if s = 3 then 1
      else if s = 20 \<and> \<not> (c = CHR ''/'' \<or> c = CHR ''>'' \<or> isWhitespace c) then 1
      else if s = 100 \<and> (c = CHR ''>'' \<or> c = CHR ''/'') then 1
      else 0)"

lemma readTag_rank_le: "readTag_rank s c \<le> 1"
  by (simp add: readTag_rank_def)

lemma readTag_step_Loop:
  "readTag_step c v cursor = Loop v' cursor' \<Longrightarrow>
     cursor' = cursor + 1 \<or>
     (cursor' = cursor \<and> readTag_rank (state v') c < readTag_rank (state v) c)"
  unfolding readTag_step_def readTag_rank_def
  by (simp split: if_splits add: Let_def) auto

lemma readTag_step_Return:
  "readTag_step c v cursor = Return e err cursor' \<Longrightarrow> cursor' = cursor + 1"
  unfolding readTag_step_def
  by (simp split: if_splits add: Let_def)

function readTag_loop ::
  "string \<Rightarrow> readTag_vars \<Rightarrow> nat \<Rightarrow> Element \<times> string option \<times> nat"
where
  "readTag_loop text v cursor =
     (if cursor < length text then
        (case readTag_step (text ! cursor) v cursor of
           Return e err cursor' \<Rightarrow> (e, err, cursor')
         | Loop v' cursor' \<Rightarrow> readTag_loop text v' cursor')
      else (name_void_elem v, None, cursor))"
  by pat_completeness auto
termination
proof (relation "measure (\<lambda>(text, v, cursor).
          2 * (length text - cursor) + readTag_rank (state v) (text ! cursor))")
  show "wf (measure (\<lambda>(text, v, cursor).
          2 * (length text - cursor) + readTag_rank (state v) (text ! cursor)))"
    by simp
next
  fix body :: string and v cursor v' cursor'
  assume lt: "cursor < length body"
    and st: "readTag_step (body ! cursor) v cursor = Loop v' cursor'"
  from readTag_step_Loop [OF st] show "((body, v', cursor'), (body, v, cursor))
      \<in> measure (\<lambda>(text, v, cursor).
          2 * (length text - cursor) + readTag_rank (state v) (text ! cursor))"
  proof
    assume "cursor' = cursor + 1"
    with lt readTag_rank_le [of "state v'" "body ! cursor'"] show ?thesis by simp
  next
    assume "cursor' = cursor \<and>
      readTag_rank (state v') (body ! cursor) < readTag_rank (state v) (body ! cursor)"
    then show ?thesis by simp
  qed
qed

text \<open>
  \<^verbatim>\<open>elem := Element{}\<close> with \<^verbatim>\<open>elem.Attributes = map[string]string{}\<close>, state 0
  and empty names.
\<close>

definition readTag_init :: readTag_vars where
  "readTag_init =
     \<lparr>elem = set_Attributes Map.empty Element_zero, state = 0, attr_name = [],
      attr_value = [], element_name = [], quote_character = CHR 0x00\<rparr>"

definition readTag :: "string \<Rightarrow> nat \<Rightarrow> Element \<times> string option \<times> nat" where
  "readTag text cursor = readTag_loop text readTag_init cursor"

section \<open>The tree builder\<close>

text \<open>
  \<^verbatim>\<open>string(body)\<close> is the UTF-8 encoding of the runes: one byte below U+0080, two
  bytes from there to U+00FF.
\<close>

definition utf8_rune :: "char \<Rightarrow> char list" where
  "utf8_rune c =
     (let n = (of_char c :: nat)
      in if n < 128 then [c] else [char_of (192 + n div 64), char_of (128 + n mod 64)])"

definition string_bytes :: "string \<Rightarrow> char list" where
  "string_bytes body = concat (map utf8_rune body)"

text \<open>
  \<^verbatim>\<open>countNewlinesBefore\<close> reads the bytes \<^verbatim>\<open>body[0]\<close> to
  \<^verbatim>\<open>body[cursorPosition - 1]\<close>; a read beyond the end is an index out of range.
  The first argument of the loop is what is left of the bytes from \<^verbatim>\<open>x\<close> on, the
  second the number of turns left.
\<close>

fun countNewlines_loop :: "char list \<Rightarrow> nat \<Rightarrow> nat \<Rightarrow> nat go" where
  "countNewlines_loop bytes 0 count = Returns count"
| "countNewlines_loop [] (Suc n) count = Panics"
| "countNewlines_loop (c # bytes) (Suc n) count =
     countNewlines_loop bytes n (if c = CHR 0x0A then count + 1 else count)"

definition countNewlinesBefore :: "char list \<Rightarrow> nat \<Rightarrow> nat go" where
  "countNewlinesBefore body cursorPosition = countNewlines_loop body cursorPosition 0"

text \<open>The text of the error of a close tag that does not match, in strict mode.\<close>

definition error_text :: "string \<Rightarrow> string \<Rightarrow> nat \<Rightarrow> string \<Rightarrow> string" where
  "error_text unexpected expected line path =
     ''unexpected close </'' @ unexpected @ ''> (expected </'' @ expected
       @ ''>) on line: '' @ Sprintf_d line @ [CHR 0x0A] @ ''current path: '' @ path"

section \<open>Where the scanners leave the cursor\<close>

declare readWhitespace_loop.simps [simp del] readUntilTag_loop.simps [simp del]
  readUntilScriptTagClose_loop.simps [simp del] readTag_loop.simps [simp del]

lemma readUntilTag_loop_ge: "cursor \<le> readUntilTag_loop body cursor"
proof (induction body cursor rule: readUntilTag_loop.induct)
  case (1 body cursor)
  show ?case
  proof (cases "cursor < length body \<and> \<not> (\<not> isWhitespace (body ! cursor) \<and> body ! cursor = CHR ''<'')")
    case True
    then have "readUntilTag_loop body cursor = readUntilTag_loop body (cursor + 1)"
      by (auto simp add: readUntilTag_loop.simps [of body cursor])
    with "1.IH" True show ?thesis by fastforce
  next
    case False
    then have "readUntilTag_loop body cursor = cursor"
      by (auto simp add: readUntilTag_loop.simps [of body cursor])
    then show ?thesis by simp
  qed
qed

lemma readUntilTag_loop_le:
  "cursor \<le> length body \<Longrightarrow> readUntilTag_loop body cursor \<le> length body"
proof (induction body cursor rule: readUntilTag_loop.induct)
  case (1 body cursor)
  show ?case
  proof (cases "cursor < length body \<and> \<not> (\<not> isWhitespace (body ! cursor) \<and> body ! cursor = CHR ''<'')")
    case True
    then have "readUntilTag_loop body cursor = readUntilTag_loop body (cursor + 1)"
      by (auto simp add: readUntilTag_loop.simps [of body cursor])
    with "1.IH" True show ?thesis by fastforce
  next
    case False
    then have "readUntilTag_loop body cursor = cursor"
      by (auto simp add: readUntilTag_loop.simps [of body cursor])
    with "1.prems" show ?thesis by simp
  qed
qed

lemma readTag_loop_ge: "readTag_loop body v cursor = (e, err, c') \<Longrightarrow> cursor \<le> c'"
proof (induction body v cursor rule: readTag_loop.induct)
  case (1 body v cursor)
  show ?case
  proof (cases "cursor < length body")
    case False
    with "1.prems" show ?thesis by (simp add: readTag_loop.simps)
  next
    case True
    show ?thesis
    proof (cases "readTag_step (body ! cursor) v cursor")
      case (Return e1 err1 c1)
      with True "1.prems" readTag_step_Return [OF Return] show ?thesis
        by (simp add: readTag_loop.simps)
    next
      case (Loop v1 c1)
      with True "1.prems" have "readTag_loop body v1 c1 = (e, err, c')"
        by (simp add: readTag_loop.simps)
      from "1.IH" [OF True Loop this] readTag_step_Loop [OF Loop] show ?thesis by auto
    qed
  qed
qed

lemma readTag_loop_le:
  "readTag_loop body v cursor = (e, err, c') \<Longrightarrow> cursor \<le> length body \<Longrightarrow> c' \<le> length body"
proof (induction body v cursor rule: readTag_loop.induct)
  case (1 body v cursor)
  show ?case
  proof (cases "cursor < length body")
    case False
    with "1.prems" show ?thesis by (simp add: readTag_loop.simps)
  next
    case True
    show ?thesis
    proof (cases "readTag_step (body ! cursor) v cursor")
      case (Return e1 err1 c1)
      with True "1.prems" readTag_step_Return [OF Return] show ?thesis
        by (simp add: readTag_loop.simps)
    next
      case (Loop v1 c1)
      with True "1.prems" have *: "readTag_loop body v1 c1 = (e, err, c')"
        by (simp add: readTag_loop.simps)
      from readTag_step_Loop [OF Loop] True have "c1 \<le> length body" by auto
      from "1.IH" [OF True Loop * this] show ?thesis .
    qed
  qed
qed

lemma readTag_step_state0:
  "state v = 0 \<Longrightarrow> readTag_step c v cursor = Loop (if c = CHR ''<'' then v\<lparr>state := 1\<rparr> else v) (cursor + 1)"
  by (simp add: readTag_step_def)

lemma readTag_gt:
  assumes "readTag body cursor = (e, err, c')" and "cursor < length body"
  shows "cursor < c'"
proof -
  define v1 where "v1 = (if body ! cursor = CHR ''<'' then readTag_init\<lparr>state := 1\<rparr> else readTag_init)"
  have "readTag_step (body ! cursor) readTag_init cursor = Loop v1 (cursor + 1)"
    unfolding v1_def by (rule readTag_step_state0) (simp add: readTag_init_def)
  with assms have "readTag_loop body v1 (cursor + 1) = (e, err, c')"
    by (simp add: readTag_def readTag_loop.simps [of body readTag_init])
  from readTag_loop_ge [OF this] show ?thesis by simp
qed

lemma readTag_ge: "readTag body cursor = (e, err, c') \<Longrightarrow> cursor \<le> c'"
  unfolding readTag_def by (rule readTag_loop_ge)

lemma readTag_le: "readTag body cursor = (e, err, c') \<Longrightarrow> cursor \<le> length body \<Longrightarrow> c' \<le> length body"
  unfolding readTag_def by (rule readTag_loop_le)

lemma readUntilScriptTagClose_loop_ge:
  "readUntilScriptTagClose_loop body ty sp ts wt q st cursor = (r, c') \<Longrightarrow> cursor \<le> c'"
proof (induction body ty sp ts wt q st cursor rule: readUntilScriptTagClose_loop.induct)
  case (1 body ty sp ts wt q st cursor)
  show ?case
  proof (cases "cursor < length body")
    case False
    with "1.prems" show ?thesis by (simp add: readUntilScriptTagClose_loop.simps)
  next
    case True
    show ?thesis
    proof (cases "readUntilScriptTagClose_step (body ! cursor) ty cursor ts wt q st")
      case Script_Return
      with True "1.prems" show ?thesis by (simp add: readUntilScriptTagClose_loop.simps)
    next
      case (Script_Loop ts1 wt1 q1 st1)
      with True "1.prems" have "readUntilScriptTagClose_loop body ty sp ts1 wt1 q1 st1 (cursor + 1) = (r, c')"
        by (simp add: readUntilScriptTagClose_loop.simps)
      from "1.IH" [OF True Script_Loop this] show ?thesis by simp
    qed
  qed
qed

lemma readUntilScriptTagClose_loop_le:
  "readUntilScriptTagClose_loop body ty sp ts wt q st cursor = (r, c') \<Longrightarrow> cursor \<le> length body
   \<Longrightarrow> c' \<le> length body"
proof (induction body ty sp ts wt q st cursor rule: readUntilScriptTagClose_loop.induct)
  case (1 body ty sp ts wt q st cursor)
  show ?case
  proof (cases "cursor < length body")
    case False
    with "1.prems" show ?thesis by (simp add: readUntilScriptTagClose_loop.simps)
  next
    case True
    show ?thesis
    proof (cases "readUntilScriptTagClose_step (body ! cursor) ty cursor ts wt q st")
      case Script_Return
      with True "1.prems" show ?thesis by (auto simp add: readUntilScriptTagClose_loop.simps)
    next
      case (Script_Loop ts1 wt1 q1 st1)
      with True "1.prems" have "readUntilScriptTagClose_loop body ty sp ts1 wt1 q1 st1 (cursor + 1) = (r, c')"
        by (simp add: readUntilScriptTagClose_loop.simps)
      from "1.IH" [OF True Script_Loop this] True show ?thesis by simp
    qed
  qed
qed

lemma readUntilTag_cursor:
  "readUntilTag body cursor = (results, c') \<Longrightarrow>
     cursor \<le> c' \<and> (cursor \<le> length body \<longrightarrow> c' \<le> length body)"
  by (auto simp: readUntilTag_def Let_def readUntilTag_loop_ge readUntilTag_loop_le)

lemma readUntilScriptTagClose_cursor:
  "readUntilScriptTagClose body cursor ty = (r, c') \<Longrightarrow>
     cursor \<le> c' \<and> (cursor \<le> length body \<longrightarrow> c' \<le> length body)"
  unfolding readUntilScriptTagClose_def
  by (blast dest: readUntilScriptTagClose_loop_ge readUntilScriptTagClose_loop_le)

section \<open>The recursive descent\<close>

text \<open>
  A level of the tree builder works on the parent element, the cursor and the stack it
  was given through pointers, and returns an error or nil: a call that returns gives back
  all four. \<^verbatim>\<open>parseLoop\<close> is the \<^verbatim>\<open>for\<close> loop of \<^verbatim>\<open>parseChildren\<close>, from
  the turn that starts at \<open>cursor\<close> to the return of \<^verbatim>\<open>parseChildren\<close>; the
  recursive call of \<^verbatim>\<open>parseChildren\<close> on a container is written out as the test of
  \<^verbatim>\<open>len(body) == 0\<close> and the loop that starts with \<^verbatim>\<open>parse_start\<close> at the
  cursor. The nil pointer that \<^verbatim>\<open>Peek\<close> returns on an empty stack is dereferenced
  by \<^verbatim>\<open>expected_tag.ElementName\<close>, which panics.
\<close>

type_synonym level = "Element \<times> nat \<times> elementStack \<times> string option"

function parseLoop ::
  "bool \<Rightarrow> string \<Rightarrow> nat \<Rightarrow> Element \<Rightarrow> nat \<Rightarrow> elementStack \<Rightarrow> level go"
where
  "parseLoop shouldCheckElementStack body parse_start parentElement cursor tagStack =
     (if cursor < length body then
        (case readUntilTag body cursor of (results, cursor1) \<Rightarrow>
         let parentElement1 =
               (if length results > 0 \<and> \<not> isContinuousWhitespace results
                then AddChild parentElement (newTextNode results) else parentElement)
         in
         case readTag body cursor1 of (read_tag, read_tag_error, cursor2) \<Rightarrow>
         if read_tag_error \<noteq> None then
           Returns (parentElement1, cursor2, tagStack, read_tag_error)
         else if IsClose read_tag then
           (case Peek tagStack of
              None \<Rightarrow> Panics
            | Some expected_tag \<Rightarrow>
                if ElementName expected_tag = ElementName read_tag then
                  (if parse_start \<le> cursor2 \<and> cursor2 \<le> length body then
                     Returns (set_InnerHTML (slice body parse_start cursor2) parentElement1,
                       cursor2, fst (Pop tagStack), None)
                   else Panics)
                else if shouldCheckElementStack then
                  (case countNewlinesBefore (string_bytes body) cursor2 of
                     Panics \<Rightarrow> Panics
                   | Returns line \<Rightarrow>
                       Returns (parentElement1, cursor2, tagStack,
                         Some (error_text (ElementName read_tag) (ElementName expected_tag)
                           line (ToString tagStack))))
                else
                  parseLoop shouldCheckElementStack body parse_start parentElement1 cursor2
                    tagStack)
         else if IsVoid read_tag then
           parseLoop shouldCheckElementStack body parse_start
             (AddChild parentElement1 read_tag) cursor2 tagStack
         else if ElementName read_tag = ''script'' then
           (let script_type =
                  (case Attributes read_tag ''type'' of
                     Some tag_script_type \<Rightarrow> tag_script_type
                   | None \<Rightarrow> ''text/javascript'')
            in case readUntilScriptTagClose body cursor2 script_type of
                 (script_contents, cursor3) \<Rightarrow>
                   parseLoop shouldCheckElementStack body parse_start
                     (AddChild parentElement1 (AddChild read_tag (newTextNode script_contents)))
                     cursor3 tagStack)
         else
           (let new_stack = Push (Duplicate tagStack) read_tag
            in case (if length body = 0 then Returns (read_tag, cursor2, new_stack, None)
                     else parseLoop shouldCheckElementStack body cursor2 read_tag cursor2
                            new_stack) of
                 Panics \<Rightarrow> Panics
               | Returns (child, cursor3, popped_stack, parse_children_error) \<Rightarrow>
                   if parse_children_error \<noteq> None then
                     Returns (AddChild parentElement1 child, cursor3, tagStack,
                       parse_children_error)
                   else
                     parseLoop shouldCheckElementStack body parse_start
                       (AddChild parentElement1 child) cursor3 tagStack))
      else if parse_start \<le> cursor \<and> cursor \<le> length body then
        Returns (set_InnerHTML (slice body parse_start cursor) parentElement, cursor,
          tagStack, None)
      else Panics)"
  by pat_completeness auto

lemma tag_cursor:
  assumes "cursor < length body" and "readUntilTag body cursor = (x, y)"
    and "readTag body y = (rt, err, c2)"
  shows "cursor < c2 \<and> c2 \<le> length body"
proof -
  from assms(1,2) readUntilTag_cursor [OF assms(2)] have y: "cursor \<le> y" "y \<le> length body"
    by auto
  from readTag_le [OF assms(3) y(2)] have "c2 \<le> length body" .
  moreover have "cursor < c2"
  proof (cases "y < length body")
    case True
    from readTag_gt [OF assms(3) True] y(1) show ?thesis by simp
  next
    case False
    with y(2) assms(1) have "cursor < y" by simp
    with readTag_ge [OF assms(3)] show ?thesis by simp
  qed
  ultimately show ?thesis by simp
qed

lemma tag_cursor':
  "cursor < length body \<Longrightarrow> (x, y) = readUntilTag body cursor \<Longrightarrow> (xb, ya) = readTag body y
   \<Longrightarrow> (xc, yb) = ya \<Longrightarrow> cursor < yb \<and> yb \<le> length body"
  by (rule tag_cursor [of cursor body x y xb xc yb]) simp_all

lemma parseLoop_cursor_ge:
  "parseLoop_dom (chk, body, ps, p, cursor, st) \<Longrightarrow>
   parseLoop chk body ps p cursor st = Returns (p', c', s', e) \<Longrightarrow> cursor \<le> c'"
proof (induction arbitrary: p' c' s' e rule: parseLoop.pinduct)
  case (1 chk body ps p cursor st)
  note dom = "1.hyps"
  show ?case
  proof (cases "cursor < length body")
    case False
    with "1.prems" show ?thesis by (simp add: parseLoop.psimps [OF dom] split: if_splits)
  next
    case lt: True
    obtain x y where rut: "readUntilTag body cursor = (x, y)" by force
    obtain rt err c2 where rtg: "readTag body y = (rt, err, c2)" by (cases "readTag body y") auto
    from tag_cursor [OF lt rut rtg] have c2: "cursor < c2" "c2 \<le> length body" by auto
    define p1 where "p1 = (if 0 < length x \<and> \<not> isContinuousWhitespace x
        then AddChild p (newTextNode x) else p)"
    note IH = "1.IH" [OF lt rut [symmetric] p1_def rtg [symmetric] refl]
    note E = "1.prems" [unfolded parseLoop.psimps [OF dom]]
    have p1_alt: "(if x \<noteq> [] \<and> \<not> isContinuousWhitespace x
        then AddChild p (newTextNode x) else p) = p1"
      by (simp add: p1_def)
    note unf = rut rtg p1_alt
    show ?thesis
    proof (cases "err \<noteq> None")
      case True
      with E lt c2 show ?thesis by (simp add: unf)
    next
      case noerr: False
      show ?thesis
      proof (cases "IsClose rt")
        case close: True
        show ?thesis
        proof (cases "Peek st")
          case None
          with E lt noerr close show ?thesis by (simp add: unf)
        next
          case (Some x2)
          show ?thesis
          proof (cases "ElementName x2 \<noteq> ElementName rt \<and> \<not> chk")
            case True
            with E lt noerr close Some
            have "parseLoop chk body ps p1 c2 st = Returns (p', c', s', e)"
              by (simp add: unf)
            from IH(1) [OF noerr close Some _ _ this] True c2 show ?thesis by simp
          next
            case False
            with E lt noerr close Some c2 show ?thesis
              by (auto simp add: unf split: if_splits go.splits)
          qed
        qed
      next
        case notclose: False
        show ?thesis
        proof (cases "IsVoid rt")
          case void: True
          with E lt noerr notclose
          have "parseLoop chk body ps (AddChild p1 rt) c2 st = Returns (p', c', s', e)"
            by (simp add: unf)
          from IH(2) [OF noerr notclose void this] c2 show ?thesis by simp
        next
          case notvoid: False
          show ?thesis
          proof (cases "ElementName rt = ''script''")
            case script: True
            define ty where "ty = (case Attributes rt ''type'' of None \<Rightarrow> ''text/javascript''
               | Some tag_script_type \<Rightarrow> tag_script_type)"
            obtain sc c3 where rs: "readUntilScriptTagClose body c2 ty = (sc, c3)" by force
            with E lt noerr notclose notvoid script
            have "parseLoop chk body ps (AddChild p1 (AddChild rt (newTextNode sc))) c3 st
                = Returns (p', c', s', e)"
              by (simp add: unf ty_def)
            from IH(3) [OF noerr notclose notvoid script ty_def rs [symmetric] this]
              readUntilScriptTagClose_cursor [OF rs] c2
            show ?thesis by simp
          next
            case notscript: False
            define ns where "ns = Push (Duplicate st) rt"
            from lt have ne: "length body \<noteq> 0" by auto
            show ?thesis
            proof (cases "parseLoop chk body c2 rt c2 ns")
              case Panics
              with E lt noerr notclose notvoid notscript ne show ?thesis
                by (simp add: unf ns_def)
            next
              case (Returns lv)
              obtain child c3 popped perr where lv: "lv = (child, c3, popped, perr)"
                by (cases lv) auto
              from IH(4) [OF noerr notclose notvoid notscript ns_def ne Returns [unfolded lv]]
              have c3: "c2 \<le> c3" .
              show ?thesis
              proof (cases "perr \<noteq> None")
                case True
                with E lt noerr notclose notvoid notscript ne Returns lv c2 c3
                show ?thesis by (simp add: unf ns_def [symmetric])
              next
                case False
                with E lt noerr notclose notvoid notscript ne Returns lv
                have "parseLoop chk body ps (AddChild p1 child) c3 st = Returns (p', c', s', e)"
                  by (simp add: unf ns_def [symmetric])
                moreover from ne Returns lv
                have "(if length body = 0 then Returns (rt, c2, ns, None)
                       else parseLoop chk body c2 rt c2 ns) = Returns (child, c3, popped, perr)"
                  by simp
                note IH(5) [OF noerr notclose notvoid notscript ns_def this refl refl refl False]
                ultimately have "c3 \<le> c'" by simp
                with c2 c3 show ?thesis by simp
              qed
            qed
          qed
        qed
      qed
    qed
  qed
qed

lemma parseLoop_total: "All parseLoop_dom"
proof (relation "measure (\<lambda>(chk, body, parse_start, parentElement, cursor, tagStack).
          length body - cursor)", goal_cases)
  case 1
  show ?case by auto
next
  case (2 chk body ps p cursor st x y xa xb ya xc yb x2)
  from tag_cursor' [OF 2(1,2,4,5)] 2(1) show ?case by auto
next
  case (3 chk body ps p cursor st x y xa xb ya xc yb)
  from tag_cursor' [OF 3(1,2,4,5)] 3(1) show ?case by auto
next
  case (4 chk body ps p cursor st x y xa xb ya xc yb xd xe yc)
  from tag_cursor' [OF 4(1,2,4,5)] 4(1)
    readUntilScriptTagClose_cursor [OF 4(11) [symmetric]]
  show ?case by auto
next
  case (5 chk body ps p cursor st x y xa xb ya xc yb xd)
  from tag_cursor' [OF 5(1,2,4,5)] 5(1) show ?case by auto
next
  case (6 chk body ps p cursor st x y xa xb ya xc yb xd x2 xe yc xf yd xg ye)
  from 6(1) have ne: "length body \<noteq> 0" by auto
  from 6(11) ne 6(12,13,14) have "parseLoop chk body yb xb yb xd = Returns (xe, xf, xg, ye)"
    by simp
  from parseLoop_cursor_ge [OF 6(16) [OF ne] this]
    tag_cursor' [OF 6(1,2,4,5)] 6(1)
  show ?case by auto
qed

termination parseLoop
  by (rule parseLoop_total)

declare parseLoop.simps [simp del]

definition parseChildren ::
  "Element \<Rightarrow> string \<Rightarrow> nat \<Rightarrow> elementStack \<Rightarrow> bool \<Rightarrow> level go"
where
  "parseChildren parentElement body cursor tagStack shouldCheckElementStack =
     (if length body = 0 then Returns (parentElement, cursor, tagStack, None)
      else parseLoop shouldCheckElementStack body cursor parentElement cursor tagStack)"

text \<open>\<^verbatim>\<open>Element{IsRoot: true}\<close>.\<close>

definition root_Element :: Element where
  "root_Element = Element [] [] Map.empty [] False False False True False False"

definition ParseStrict :: "string \<Rightarrow> (Element \<times> string option) go" where
  "ParseStrict body =
     (case parseChildren root_Element body 0 elementStack_zero True of
        Panics \<Rightarrow> Panics
      | Returns (parentElement, cursor, tagStack, childrenError) \<Rightarrow>
          Returns (parentElement, childrenError))"

definition Parse :: "string \<Rightarrow> (Element \<times> string option) go" where
  "Parse body =
     (case parseChildren root_Element body 0 elementStack_zero False of
        Panics \<Rightarrow> Panics
      | Returns (parentElement, cursor, tagStack, childrenError) \<Rightarrow>
          Returns (parentElement, childrenError))"

section \<open>Running the parser on a given text\<close>

text \<open>The equations that run the scanners and the tree builder on a literal text.\<close>

lemmas scan_simps =
  readUntilTag_def readUntilTag_loop.simps readTag_def readTag_loop.simps readTag_init_def
  readTag_step_def readUntilScriptTagClose_def readUntilScriptTagClose_loop.simps
  readUntilScriptTagClose_step_def Let_def isWhitespace_def name_void_elem_def name_elem_def
  set_attr_def ToLower_def toLower_rune_def isKnownVoidElement_def KNOWN_VOID_ELEMENTS_def
  Element_zero_def slice_def ELEMENT_INTERNAL_XML_COMMENT_def char_of_def bit_0

lemmas parse_simps =
  Parse_def ParseStrict_def parseChildren_def parseLoop.simps root_Element_def
  Peek_def Pop_def Push_def Duplicate_def ToString_def elementStack_zero_def AddChild_def
  newTextNode_def ELEMENT_INTERNAL_TEXT_def countNewlinesBefore_def string_bytes_def
  utf8_rune_def error_text_def

text \<open>
  The model against the tests of the repository: cases of \<^verbatim>\<open>TestReadTag\<close> (and
  \<^verbatim>\<open><BR>\<close> of the spec), and \<^verbatim>\<open>TestParsingInvalid\<close> with the text that the
  lenient parse accepts.
\<close>

lemma readTag_tests:
  \<open>readTag ''<!DOCTYPE>'' 0 =
     (Element ''doctype'' [] Map.empty [] False True False False False False, None, 10)\<close>
  \<open>readTag ''<!DOCTYPE html>'' 0 =
     (Element ''doctype'' [] [''html'' \<mapsto> []] [] False True False False False False, None, 15)\<close>
  \<open>readTag ''<!-- this is a comment -->'' 0 =
     (Element ''xmlcomment'' '' this is a comment '' Map.empty [] False True True False False
        False, None, 26)\<close>
  \<open>readTag ''<br>'' 0 =
     (Element ''br'' [] Map.empty [] False True False False False False, None, 4)\<close>
  \<open>readTag ''<br/>'' 0 =
     (Element ''br'' [] Map.empty [] False True False False False False, None, 4)\<close>
  \<open>readTag ''</div>'' 0 =
     (Element ''div'' [] Map.empty [] False False False False True False, None, 6)\<close>
  \<open>readTag ''</ div>'' 0 =
     (Element ''div'' [] Map.empty [] False False False False True False, None, 7)\<close>
  \<open>readTag ''< /div>'' 0 =
     (Element ''div'' [] Map.empty [] False False False False True False, None, 7)\<close>
  \<open>readTag ''<div class='with="escaped_quotes"'>'' 0 =
     (Element ''div'' [] [''class'' \<mapsto> ''with="escaped_quotes"''] [] False False False
        False False False, None, 35)\<close>
  \<open>readTag ''<a class="my-link" href="/test/route" />'' 0 =
     (Element ''a'' [] [''class'' \<mapsto> ''my-link'', ''href'' \<mapsto> ''/test/route''] [] False
        True False False False False, None, 39)\<close>
  \<open>readTag ''<BR>'' 0 =
     (Element ''br'' [] Map.empty [] False True False False False False, None, 4)\<close>
  by (simp_all add: scan_simps)

lemma Parse_tests:
  \<open>\<exists>root msg. ParseStrict
      ''<div id="first"><br><p><h1>Test!</p></h1></div><div id="second"><h2>Test 2!</h2></div>''
      = Returns (root, Some msg)\<close>
  \<open>\<exists>root. Parse
      ''<div id="first"><br><p><h1>Test!</p></h1></div><div id="second"><h2>Test 2!</h2></div>''
      = Returns (root, None)\<close>
  by (simp_all add: scan_simps parse_simps)

section \<open>The claims\<close>

text \<open>
  C1. The claim: the lenient parse drops a close tag that does not match the top of the
  stack, also when the stack is empty, and never crashes. On an empty stack
  \<^verbatim>\<open>Peek\<close> returns nil and \<^verbatim>\<open>expected_tag.ElementName\<close> dereferences it: a
  close tag at the top level of the document makes \<^verbatim>\<open>Parse\<close> panic, whether it is
  the first tag of the text or follows a closed element.
\<close>

theorem Parse_close_tag_at_top_level_panics:
  "Parse ''</div>'' = Panics \<and> Parse ''<p>a</p></div>'' = Panics"
  by (simp add: scan_simps parse_simps)

text \<open>
  C3. The claim: the \<^verbatim>\<open>InnerHTML\<close> of a container closed by its close tag is the
  text between its open tag and its close tag, without the close tag. The span is taken
  after \<^verbatim>\<open>readTag\<close> has moved the cursor over the close tag, so it ends with the
  close tag: for \<^verbatim>\<open><div>hi</div>\<close> the \<^verbatim>\<open>div\<close> gets \<^verbatim>\<open>hi</div>\<close>.
\<close>

theorem Parse_InnerHTML_includes_close_tag:
  "Parse ''<div>hi</div>'' =
     Returns (Element [] ''<div>hi</div>'' Map.empty
       [Element ''div'' ''hi</div>'' Map.empty
          [Element ''text'' ''hi'' Map.empty [] True True False False False False]
          False False False False False False]
       False False False True False False, None)"
  by (simp add: scan_simps parse_simps)

text \<open>
  C4. The claim: the error of a close tag that does not match, in strict mode, names the
  two tags, the 1-based line of the close tag and the path of the stack. The line is the
  number of newlines before the cursor: a mismatch on the first line reports line 0.
\<close>

theorem ParseStrict_mismatch_first_line_reports_0:
  "ParseStrict ''<div></p>'' =
     Returns (Element [] [] Map.empty
       [Element ''div'' [] Map.empty [] False False False False False False]
       False False False True False False,
       Some (''unexpected close </p> (expected </div>) on line: 0'' @ [CHR 0x0A]
         @ ''current path: div''))"
  by (simp add: scan_simps parse_simps)

text \<open>
  The scanner started behind a prefix of the text does what it does on the rest alone:
  it never looks before the cursor, and \<^verbatim>\<open>tag_start\<close> is only read in the states
  11 and 12, after state 0 has set it.
\<close>

lemma slice_shift: "slice (pre @ s) (length pre + a) (length pre + b) = slice s a b"
  by (simp add: slice_def)

lemma script_step_shift:
  assumes "st \<in> {11, 12} \<longrightarrow> ts' = n + ts"
  shows "case readUntilScriptTagClose_step c ty cursor ts wt q st of
           Script_Return \<Rightarrow>
             readUntilScriptTagClose_step c ty (n + cursor) ts' wt q st = Script_Return
             \<and> st = 12
         | Script_Loop ts1 wt1 q1 st1 \<Rightarrow>
             (\<exists>ts1'. readUntilScriptTagClose_step c ty (n + cursor) ts' wt q st
                 = Script_Loop ts1' wt1 q1 st1
               \<and> (st1 \<in> {11, 12} \<longrightarrow> ts1' = n + ts1))"
proof -
  consider "st = 0" | "st = 11" | "st = 12" | "st = 21" | "st = 22" | "st = 25" | "st = 26"
    | "st = 30" | "st \<notin> {0, 11, 12, 21, 22, 25, 26, 30}"
    by blast
  then show ?thesis
  proof cases
    case 1
    then show ?thesis by (simp add: readUntilScriptTagClose_step_def)
  next
    case 2
    with assms show ?thesis by (simp add: readUntilScriptTagClose_step_def)
  next
    case 3
    with assms show ?thesis by (simp add: readUntilScriptTagClose_step_def)
  next
    case 4
    then show ?thesis by (simp add: readUntilScriptTagClose_step_def)
  next
    case 5
    then show ?thesis by (simp add: readUntilScriptTagClose_step_def)
  next
    case 6
    then show ?thesis by (simp add: readUntilScriptTagClose_step_def)
  next
    case 7
    then show ?thesis by (simp add: readUntilScriptTagClose_step_def)
  next
    case 8
    then show ?thesis by (simp add: readUntilScriptTagClose_step_def)
  next
    case 9
    then show ?thesis by (simp add: readUntilScriptTagClose_step_def)
  qed
qed

lemma script_loop_shift:
  assumes "readUntilScriptTagClose_loop s ty sp ts wt q st cursor = (r, c')"
    and "st \<in> {11, 12} \<longrightarrow> ts' = length pre + ts"
  shows "readUntilScriptTagClose_loop (pre @ s) ty (length pre + sp) ts' wt q st
      (length pre + cursor) = (r, length pre + c')"
  using assms
proof (induction s ty sp ts wt q st cursor arbitrary: ts'
    rule: readUntilScriptTagClose_loop.induct)
  case (1 s ty sp ts wt q st cursor)
  show ?case
  proof (cases "cursor < length s")
    case False
    with "1.prems"(1) have r: "r = slice s sp cursor" "c' = cursor"
      by (auto simp add: readUntilScriptTagClose_loop.simps [of _ _ _ _ _ _ _ cursor])
    from False have "readUntilScriptTagClose_loop (pre @ s) ty (length pre + sp) ts' wt q st
        (length pre + cursor)
        = (slice (pre @ s) (length pre + sp) (length pre + cursor), length pre + cursor)"
      by (simp add: readUntilScriptTagClose_loop.simps [of _ _ _ _ _ _ _ "length pre + cursor"])
    then show ?thesis unfolding r by (simp only: slice_shift)
  next
    case True
    then have nth: "(pre @ s) ! (length pre + cursor) = s ! cursor" by (simp add: nth_append)
    note sh = script_step_shift [OF "1.prems"(2), of "s ! cursor" ty cursor wt q]
    show ?thesis
    proof (cases "readUntilScriptTagClose_step (s ! cursor) ty cursor ts wt q st")
      case Script_Return
      with sh have ret: "readUntilScriptTagClose_step (s ! cursor) ty (length pre + cursor) ts'
          wt q st = Script_Return" and st: "st = 12" by auto
      from st "1.prems"(2) have ts': "ts' = length pre + ts" by simp
      from True Script_Return "1.prems"(1) have "r = slice s sp ts" "c' = cursor + 1"
        by (simp_all add: readUntilScriptTagClose_loop.simps [of _ _ _ _ _ _ _ cursor])
      with True ret nth ts' show ?thesis
        by (simp add: readUntilScriptTagClose_loop.simps [of _ _ _ _ _ _ _ "length pre + cursor"]
            slice_shift)
    next
      case (Script_Loop ts1 wt1 q1 st1)
      with sh obtain ts1' where
        step': "readUntilScriptTagClose_step (s ! cursor) ty (length pre + cursor) ts' wt q st
            = Script_Loop ts1' wt1 q1 st1"
        and inv: "st1 \<in> {11, 12} \<longrightarrow> ts1' = length pre + ts1" by auto
      from True Script_Loop "1.prems"(1)
      have "readUntilScriptTagClose_loop s ty sp ts1 wt1 q1 st1 (cursor + 1) = (r, c')"
        by (simp add: readUntilScriptTagClose_loop.simps [of _ _ _ _ _ _ _ cursor])
      from "1.IH" [OF True Script_Loop this inv]
      have "readUntilScriptTagClose_loop (pre @ s) ty (length pre + sp) ts1' wt1 q1 st1
          (length pre + (cursor + 1)) = (r, length pre + c')" .
      with True step' nth show ?thesis
        by (simp add: readUntilScriptTagClose_loop.simps [of _ _ _ _ _ _ _ "length pre + cursor"])
    qed
  qed
qed

lemma readUntilScriptTagClose_shift:
  assumes "readUntilScriptTagClose s 0 ty = (r, c')"
  shows "readUntilScriptTagClose (pre @ s) (length pre) ty = (r, length pre + c')"
  using script_loop_shift [of s ty 0 0 "[]" "CHR 0x00" 0 0 r c' 0 pre] assms
  by (simp add: readUntilScriptTagClose_def)

text \<open>
  C5. With the content type \<^verbatim>\<open>text/javascript\<close>, and the cursor where the suffix
  starts, the script-body scanner returns \<^verbatim>\<open>var a = "abc";\<close> on the first suffix and
  \<^verbatim>\<open>alert('</script>');\<close> on the second, where it does not close on the
  \<^verbatim>\<open></script>\<close> inside the string literal; both times the cursor ends behind the
  closing \<^verbatim>\<open></script>\<close>, which is the end of the text.
\<close>

theorem readUntilScriptTagClose_examples:
  \<open>readUntilScriptTagClose (pre @ ''var a = "abc";</script>'') (length pre) ''text/javascript''
     = (''var a = "abc";'', length (pre @ ''var a = "abc";</script>''))
   \<and> readUntilScriptTagClose (pre @ ''alert('</script>');</script>'') (length pre)
       ''text/javascript''
     = (''alert('</script>');'', length (pre @ ''alert('</script>');</script>''))\<close>
proof -
  have \<open>readUntilScriptTagClose ''var a = "abc";</script>'' 0 ''text/javascript''
     = (''var a = "abc";'', 23)\<close>
    by (simp add: scan_simps)
  moreover have \<open>readUntilScriptTagClose ''alert('</script>');</script>'' 0 ''text/javascript''
     = (''alert('</script>');'', 28)\<close>
    by (simp add: scan_simps)
  ultimately show ?thesis
    by (simp add: readUntilScriptTagClose_shift)
qed

text \<open>
  C6. The claim: a hyphen of a comment that does not start the closing \<^verbatim>\<open>-->\<close> is
  part of the content, so the content is all the text between \<^verbatim>\<open><!--\<close> and
  \<^verbatim>\<open>-->\<close>. State 201 goes back to state 200 with the character that follows the
  hyphen and without the hyphen, and state 202 skips every character that is not
  \<^verbatim>\<open>>\<close>: the comment \<^verbatim>\<open><!--a-b-->\<close> has the content \<^verbatim>\<open>ab\<close>, and
  \<^verbatim>\<open><!--a--b-->\<close> the content \<^verbatim>\<open>a\<close>.
\<close>

theorem readTag_comment_drops_hyphens:
  "readTag ''<!--a-b-->'' 0 =
     (Element ''xmlcomment'' ''ab'' Map.empty [] False True True False False False, None, 10)
   \<and> readTag ''<!--a--b-->'' 0 =
     (Element ''xmlcomment'' ''a'' Map.empty [] False True True False False False, None, 11)"
  by (simp add: scan_simps)

text \<open>
  C7. The claim: every character of a tag name other than whitespace, \<^verbatim>\<open>>\<close> and
  \<^verbatim>\<open>/\<close> is added to the name, and a tag whose name has a hyphen is returned with
  its whole name and the cursor behind its \<^verbatim>\<open>>\<close>. A hyphen in state 10 sets state
  11, which has no case in the \<^verbatim>\<open>switch\<close> of \<^verbatim>\<open>readTag\<close>: the rest of the text
  is skipped, and the element has the name up to the hyphen.
\<close>

theorem readTag_hyphen_swallows_the_rest:
  "readTag ''<my-element>hello</my-element>'' 0 =
     (Element ''my'' [] Map.empty [] False False False False False False, None,
      length ''<my-element>hello</my-element>'')"
  by (simp add: scan_simps)

section \<open>A copy of the stack is independent of the original\<close>

text \<open>The values of a chain of nodes, the top first.\<close>

fun stack_values :: "elementStackNode option \<Rightarrow> Element list" where
  "stack_values None = []"
| "stack_values (Some (elementStackNode nxt v)) = v # stack_values nxt"

lemma Duplicate_nodes_values: "Duplicate_nodes t nodes = rev (stack_values t) @ nodes"
  by (induction t nodes rule: Duplicate_nodes.induct) simp_all

lemma Top_Push: "Top (Push es e) = Some (elementStackNode (Top es) e)"
  by (simp add: Push_def Let_def split: option.splits)

lemma Top_Duplicate_push:
  "Top (Duplicate_push es vs) = foldl (\<lambda>t v. Some (elementStackNode t v)) (Top es) vs"
  by (induction es vs rule: Duplicate_push.induct) (simp_all add: Top_Push)

lemma rebuild_values:
  "foldr (\<lambda>v t. Some (elementStackNode t v)) (stack_values t) None = t"
  by (induction t rule: stack_values.induct) simp_all

lemma Top_Duplicate: "Top (Duplicate es) = Top es"
proof (cases "Top es")
  case None
  then show ?thesis by (simp add: Duplicate_def elementStack_zero_def)
next
  case (Some node)
  have "Top (Duplicate es) =
      foldl (\<lambda>t v. Some (elementStackNode t v)) None (rev (stack_values (Top es)))"
    using Some
    by (simp add: Duplicate_def Top_Duplicate_push Duplicate_nodes_values elementStack_zero_def)
  also have "\<dots> = foldr (\<lambda>v t. Some (elementStackNode t v)) (stack_values (Top es)) None"
    by (simp add: foldl_conv_foldr)
  also have "\<dots> = Top es" by (rule rebuild_values)
  finally show ?thesis .
qed

lemma ToString_Duplicate: "ToString (Duplicate es) = ToString es"
  by (simp add: ToString_def Top_Duplicate)

text \<open>
  The calls of \<^verbatim>\<open>Push\<close> and \<^verbatim>\<open>Pop\<close> that follow on one stack of the heap, in
  their order.
\<close>

datatype stack_op = Do_Push Element | Do_Pop

fun run_op :: "heap \<Rightarrow> nat \<Rightarrow> stack_op \<Rightarrow> heap" where
  "run_op h es (Do_Push e) = Push_at h es e"
| "run_op h es Do_Pop = fst (Pop_at h es)"

fun run_ops :: "heap \<Rightarrow> nat \<Rightarrow> stack_op list \<Rightarrow> heap" where
  "run_ops h es [] = h"
| "run_ops h es (x # xs) = run_ops (run_op h es x) es xs"

lemma run_op_other: "q \<noteq> es \<Longrightarrow> run_op h es x ! q = h ! q"
  by (cases x) (simp_all add: Push_at_def Pop_at_def)

lemma run_op_length: "length (run_op h es x) = length h"
  by (cases x) (simp_all add: Push_at_def Pop_at_def)

lemma run_ops_other: "q \<noteq> es \<Longrightarrow> run_ops h es ops ! q = h ! q"
  by (induction h es ops rule: run_ops.induct) (simp_all add: run_op_other)

text \<open>
  C8. \<^verbatim>\<open>Duplicate\<close> on the stack at \<open>s\<close> returns a pointer \<open>d\<close> to a new stack
  with the same \<^verbatim>\<open>ToString\<close>. Whatever calls of \<^verbatim>\<open>Push\<close> and \<^verbatim>\<open>Pop\<close> follow
  on \<open>d\<close>, the stack at \<open>s\<close> and its \<^verbatim>\<open>ToString\<close> stay as they were, and the
  same with \<open>s\<close> and \<open>d\<close> exchanged. Three pushes of \<^verbatim>\<open>br\<close>, \<^verbatim>\<open>div\<close>,
  \<^verbatim>\<open>div\<close> on the empty stack give \<^verbatim>\<open>br > div > div\<close>, and the empty stack gives
  \<^verbatim>\<open>*\<close>.
\<close>

theorem Duplicate_independent:
  assumes "s < length h" and "Duplicate_at h s = (h', d)"
  shows "d \<noteq> s \<and> d < length h'
    \<and> ToString_at h' d = ToString_at h s
    \<and> ToString_at h' s = ToString_at h s
    \<and> (\<forall>ops. run_ops h' d ops ! s = h ! s
          \<and> ToString_at (run_ops h' d ops) s = ToString_at h s)
    \<and> (\<forall>ops. run_ops h' s ops ! d = h' ! d
          \<and> ToString_at (run_ops h' s ops) d = ToString_at h s)
    \<and> ToString (Push (Push (Push elementStack_zero (set_ElementName ''br'' a))
          (set_ElementName ''div'' b)) (set_ElementName ''div'' c)) = ''br > div > div''
    \<and> ToString elementStack_zero = ''*''"
proof -
  from assms have d: "d = length h" and h': "h' = h @ [Duplicate (h ! s)]"
    by (auto simp: Duplicate_at_def)
  from d assms(1) have ne: "d \<noteq> s" "s \<noteq> d" by auto
  have s: "h' ! s = h ! s" using assms(1) by (simp add: h' nth_append)
  have dd: "h' ! d = Duplicate (h ! s)" by (simp add: h' d)
  have names: "ElementName (set_ElementName n x) = n" for n x by (cases x) simp
  have "ToString (Push (Push (Push elementStack_zero (set_ElementName ''br'' a))
          (set_ElementName ''div'' b)) (set_ElementName ''div'' c)) = ''br > div > div''"
    by (simp add: ToString_def Push_def elementStack_zero_def names)
  moreover have "ToString elementStack_zero = ''*''"
    by (simp add: ToString_def elementStack_zero_def)
  moreover have "d < length h'" by (simp add: h' d)
  ultimately show ?thesis
    using ne s dd by (simp add: ToString_at_def run_ops_other ToString_Duplicate)
qed

theorem Duplicate_independent_witness:
  "Duplicate_at [Push (Push elementStack_zero (set_ElementName ''br'' Element_zero))
       (set_ElementName ''div'' Element_zero)] 0
     = ([Push (Push elementStack_zero (set_ElementName ''br'' Element_zero))
           (set_ElementName ''div'' Element_zero),
         Duplicate (Push (Push elementStack_zero (set_ElementName ''br'' Element_zero))
           (set_ElementName ''div'' Element_zero))], 1)
   \<and> ToString_at [Push (Push elementStack_zero (set_ElementName ''br'' Element_zero))
           (set_ElementName ''div'' Element_zero),
         Duplicate (Push (Push elementStack_zero (set_ElementName ''br'' Element_zero))
           (set_ElementName ''div'' Element_zero))] 1 = ''br > div''
   \<and> ToString_at (run_ops [Push (Push elementStack_zero (set_ElementName ''br'' Element_zero))
           (set_ElementName ''div'' Element_zero),
         Duplicate (Push (Push elementStack_zero (set_ElementName ''br'' Element_zero))
           (set_ElementName ''div'' Element_zero))] 1
         [Do_Pop, Do_Push (set_ElementName ''p'' Element_zero)]) 0 = ''br > div''"
proof -
  let ?s = "Push (Push elementStack_zero (set_ElementName ''br'' Element_zero))
       (set_ElementName ''div'' Element_zero)"
  have len: "0 < length [?s]" by simp
  have dup: "Duplicate_at [?s] 0 = ([?s, Duplicate ?s], 1)" by (simp add: Duplicate_at_def)
  have str: "ToString_at [?s] 0 = ''br > div''"
    by (simp add: ToString_at_def ToString_def Push_def elementStack_zero_def Element_zero_def)
  note ind = Duplicate_independent [OF len dup, of Element_zero Element_zero Element_zero]
  from ind have a: "ToString_at [?s, Duplicate ?s] 1 = ToString_at [?s] 0"
    by (elim conjE)
  from ind have "\<forall>ops. run_ops [?s, Duplicate ?s] 1 ops ! 0 = [?s] ! 0
      \<and> ToString_at (run_ops [?s, Duplicate ?s] 1 ops) 0 = ToString_at [?s] 0"
    by (elim conjE)
  then have b: "ToString_at (run_ops [?s, Duplicate ?s] 1
      [Do_Pop, Do_Push (set_ElementName ''p'' Element_zero)]) 0 = ToString_at [?s] 0"
    by (elim allE conjE)
  show ?thesis by (simp only: dup a b str simp_thms)
qed

section \<open>Termination of the tree builder\<close>

lemma parseLoop_dom_all: "parseLoop_dom x"
  using parseLoop_total by blast

lemma parseLoop_cursor_ge_total:
  "parseLoop chk body ps p cursor st = Returns (p', c', s', e) \<Longrightarrow> cursor \<le> c'"
  by (rule parseLoop_cursor_ge [OF parseLoop_dom_all])

text \<open>
  C9. \<^verbatim>\<open>Parse\<close> and \<^verbatim>\<open>ParseStrict\<close> call \<^verbatim>\<open>parseChildren\<close> once, which enters
  the loop once. The loop with its recursive descent terminates on every input: every
  argument is in the domain of \<^const>\<open>parseLoop\<close>, which is the accessible part of its
  call relation. The measure is \<open>length body - cursor\<close>: \<^verbatim>\<open>readTag\<close> started
  within the text leaves the cursor strictly further and within the text (the turns that
  step back one character read it again in a state that then moves on, see
  \<^const>\<open>readTag_rank\<close>); so does one turn of the loop up to its tag, which is where
  the next turn or the descent into a container starts; and a level that returns leaves
  the cursor where it started or further, which is where the turn after a descent starts.
\<close>

theorem parse_terminates:
  "parseLoop_dom (shouldCheckElementStack, body, parse_start, parentElement, cursor, tagStack)
   \<and> (\<forall>e err c'. cursor < length body \<longrightarrow> readTag body cursor = (e, err, c') \<longrightarrow>
         cursor < c' \<and> c' \<le> length body)
   \<and> (\<forall>results cursor1 read_tag err cursor2.
         cursor < length body \<longrightarrow> readUntilTag body cursor = (results, cursor1) \<longrightarrow>
         readTag body cursor1 = (read_tag, err, cursor2) \<longrightarrow>
         cursor < cursor2 \<and> cursor2 \<le> length body)
   \<and> (\<forall>p' c' s' e.
         parseLoop shouldCheckElementStack body parse_start parentElement cursor tagStack
           = Returns (p', c', s', e) \<longrightarrow> cursor \<le> c')"
proof (intro conjI allI impI)
  show "parseLoop_dom (shouldCheckElementStack, body, parse_start, parentElement, cursor,
      tagStack)"
    by (rule parseLoop_dom_all)
next
  fix e err c'
  assume "cursor < length body" and "readTag body cursor = (e, err, c')"
  then show "cursor < c'" by (simp add: readTag_gt)
next
  fix e err c'
  assume "cursor < length body" and "readTag body cursor = (e, err, c')"
  then show "c' \<le> length body" using readTag_le by fastforce
next
  fix results cursor1 read_tag err cursor2
  assume "cursor < length body" and "readUntilTag body cursor = (results, cursor1)"
    and "readTag body cursor1 = (read_tag, err, cursor2)"
  then show "cursor < cursor2" using tag_cursor by blast
next
  fix results cursor1 read_tag err cursor2
  assume "cursor < length body" and "readUntilTag body cursor = (results, cursor1)"
    and "readTag body cursor1 = (read_tag, err, cursor2)"
  then show "cursor2 \<le> length body" using tag_cursor by blast
next
  fix p' c' s' e
  assume "parseLoop shouldCheckElementStack body parse_start parentElement cursor tagStack
           = Returns (p', c', s', e)"
  then show "cursor \<le> c'" by (rule parseLoop_cursor_ge_total)
qed

theorem parse_terminates_witness:
  "parseLoop_dom (False, ''<br>'', 0, root_Element, 0, elementStack_zero)
   \<and> readTag ''<br>'' 0 =
       (Element ''br'' [] Map.empty [] False True False False False False, None, 4)
   \<and> (0::nat) < 4 \<and> 4 \<le> length ''<br>''"
proof -
  have "readTag ''<br>'' 0 =
       (Element ''br'' [] Map.empty [] False True False False False False, None, 4)"
    by (simp add: scan_simps)
  with parse_terminates [of False "''<br>''" 0 root_Element 0 elementStack_zero]
  show ?thesis by simp
qed

section \<open>The end of the text\<close>

lemma parseLoop_at_end:
  "ps \<le> length body \<Longrightarrow>
   parseLoop chk body ps p (length body) st =
     Returns (set_InnerHTML (slice body ps (length body)) p, length body, st, None)"
  by (simp add: parseLoop.simps [of chk body ps p "length body" st])

lemma readUntilTag_loop_at_end: "readUntilTag_loop body (length body) = length body"
  by (simp add: readUntilTag_loop.simps [of body "length body"])

lemma readUntilTag_loop_no_tag:
  "CHR ''<'' \<notin> set (drop cursor body) \<Longrightarrow> cursor \<le> length body \<Longrightarrow>
   readUntilTag_loop body cursor = length body"
proof (induction body cursor rule: readUntilTag_loop.induct)
  case (1 body cursor)
  show ?case
  proof (cases "cursor < length body")
    case False
    with "1.prems" have "cursor = length body" by simp
    then show ?thesis by (simp only: readUntilTag_loop_at_end)
  next
    case True
    then have d: "drop cursor body = body ! cursor # drop (cursor + 1) body"
      by (simp add: Cons_nth_drop_Suc)
    with "1.prems" have ne: "body ! cursor \<noteq> CHR ''<''"
      and rest: "CHR ''<'' \<notin> set (drop (cursor + 1) body)" by auto
    from True ne have "readUntilTag_loop body cursor = readUntilTag_loop body (cursor + 1)"
      by (simp add: readUntilTag_loop.simps [of body cursor])
    also from True ne have "\<dots> = length body"
      by (intro "1.IH" rest) auto
    finally show ?thesis .
  qed
qed

lemma readTag_at_end: "readTag body (length body) = (Element_zero, None, length body)"
  by (simp add: readTag_def readTag_loop.simps [of body _ "length body"] readTag_init_def
      name_void_elem_def name_elem_def Element_zero_def ToLower_def isKnownVoidElement_def
      KNOWN_VOID_ELEMENTS_def)

text \<open>
  When no tag is left, \<^verbatim>\<open>readUntilTag\<close> takes the rest of the text and
  \<^verbatim>\<open>readTag\<close> returns the zero \<^verbatim>\<open>Element\<close>, which is neither a close tag nor
  void: the level descends into it as into a container, adds it to its parent and returns.
\<close>

lemma parseLoop_no_more_tags:
  assumes "cursor < length body" and "readUntilTag body cursor = (x, length body)"
    and "ps \<le> cursor"
  shows "parseLoop chk body ps p cursor st =
      Returns (set_InnerHTML (slice body ps (length body))
        (AddChild
          (if 0 < length x \<and> \<not> isContinuousWhitespace x then AddChild p (newTextNode x)
           else p)
          Element_zero), length body, st, None)"
proof -
  from assms(1) have ne: "length body \<noteq> 0" by auto
  have z: "set_InnerHTML [] Element_zero = Element_zero" by (simp add: Element_zero_def)
  have sel: "\<not> IsClose Element_zero" "\<not> IsVoid Element_zero"
    "ElementName Element_zero \<noteq> ''script''"
    by (simp_all add: Element_zero_def)
  have inner: "parseLoop chk body (length body) Element_zero (length body) ns
      = Returns (Element_zero, length body, ns, None)" for ns
    by (simp add: parseLoop_at_end slice_def z)
  from assms have ps: "ps \<le> length body" by simp
  from assms(1) ne ps show ?thesis
    by (simp add: parseLoop.simps [of chk body ps p cursor st] assms(2) readTag_at_end
        inner parseLoop_at_end sel)
qed

section \<open>Well-formed texts\<close>










section \<open>Text at the end of the input\<close>

text \<open>
  C10, as amended. When a turn of the loop starts inside the text and the rest of the
  text has no \<^verbatim>\<open><\<close>, the level returns at the end of the text without an error,
  and has added to its parent a text node with the rest of the text, unless the rest is
  only whitespace, and then one more element: the zero \<^verbatim>\<open>Element\<close> that
  \<^verbatim>\<open>readTag\<close> returns at the end of the text, which is neither a close tag nor void
  and so is descended into as a container. For a text with no \<^verbatim>\<open><\<close> at all this is
  what \<^verbatim>\<open>Parse\<close> returns.
\<close>

theorem trailing_text_appends_empty_element:
  assumes "cursor < length body" and "CHR ''<'' \<notin> set (drop cursor body)"
    and "parse_start \<le> cursor"
  shows "parseLoop chk body parse_start parentElement cursor tagStack =
      Returns (set_InnerHTML (slice body parse_start (length body))
        (AddChild
          (if isContinuousWhitespace (drop cursor body) then parentElement
           else AddChild parentElement (newTextNode (drop cursor body)))
          Element_zero), length body, tagStack, None)
    \<and> (cursor = 0 \<longrightarrow> Parse body =
          Returns (Element [] body Map.empty
            ((if isContinuousWhitespace body then [] else [newTextNode body]) @ [Element_zero])
            False False False True False False, None))"
proof -
  from assms have rut: "readUntilTag body cursor = (drop cursor body, length body)"
    by (simp add: readUntilTag_def readUntilTag_loop_no_tag slice_def)
  from assms(1) have ne: "drop cursor body \<noteq> []" "length body \<noteq> 0" by auto
  have loop: "parseLoop chk body parse_start p cursor st =
      Returns (set_InnerHTML (slice body parse_start (length body))
        (AddChild
          (if isContinuousWhitespace (drop cursor body) then p
           else AddChild p (newTextNode (drop cursor body)))
          Element_zero), length body, st, None)" for chk p st
    using parseLoop_no_more_tags [OF assms(1) rut assms(3), of chk p st] ne by auto
  have "Parse body =
          Returns (Element [] body Map.empty
            ((if isContinuousWhitespace body then [] else [newTextNode body]) @ [Element_zero])
            False False False True False False, None)" if "cursor = 0"
    using that ne(2) loop [of False root_Element elementStack_zero] assms(3)
    by (simp add: Parse_def parseChildren_def root_Element_def AddChild_def slice_def)
  with loop show ?thesis by blast
qed

text \<open>
  The claim as it is written fails: \<^verbatim>\<open>hello\<close> is the text after the last tag of
  \<^verbatim>\<open><>hello\<close>, whose parse ends on the tokenizer's error at \<^verbatim>\<open><>\<close>; and the
  text of one blank has no \<^verbatim>\<open><\<close> and is not empty, and its root has the empty
  element as its only child, with no text node before it.
\<close>

theorem trailing_text_counterexample:
  "Parse ''<>hello'' = Returns (root_Element, Some ''Empty tag similar to `<>` or `< >` or `</>`'')
   \<and> Parse '' '' = Returns (Element [] '' '' Map.empty [Element_zero]
         False False False True False False, None)"
  by (simp add: scan_simps parse_simps)

theorem trailing_text_appends_empty_element_witness:
  "Parse ''hello'' =
     Returns (Element [] ''hello'' Map.empty
       [Element ''text'' ''hello'' Map.empty [] True True False False False False,
        Element [] [] Map.empty [] False False False False False False]
       False False False True False False, None)
   \<and> parseLoop False ''<br>hi'' 0 (AddChild root_Element
         (Element ''br'' [] Map.empty [] False True False False False False)) 4
         elementStack_zero =
     Returns (Element [] ''<br>hi'' Map.empty
       [Element ''br'' [] Map.empty [] False True False False False False,
        Element ''text'' ''hi'' Map.empty [] True True False False False False,
        Element [] [] Map.empty [] False False False False False False]
       False False False True False False, 6, elementStack_zero, None)"
proof -
  have a: "(0::nat) < length ''hello''" "CHR ''<'' \<notin> set (drop 0 ''hello'')" "(0::nat) \<le> 0"
    by simp_all
  have b: "(4::nat) < length ''<br>hi''" "CHR ''<'' \<notin> set (drop 4 ''<br>hi'')" "(0::nat) \<le> 4"
    by simp_all
  from trailing_text_appends_empty_element [OF a, of False root_Element elementStack_zero]
    trailing_text_appends_empty_element [OF b, of False "AddChild root_Element
         (Element ''br'' [] Map.empty [] False True False False False False)" elementStack_zero]
  show ?thesis
    by (simp add: isWhitespace_def newTextNode_def ELEMENT_INTERNAL_TEXT_def Element_zero_def
        AddChild_def root_Element_def slice_def)
qed

end
